theory Spec2Isabelle
  imports Main
begin

section \<open>Kernel output messages (interfaces/KernelOutputType.ts)\<close>

text \<open>
  The enumerations and the message interface of \<^verbatim>\<open>KernelOutputType.ts\<close>. The optional
  field \<^verbatim>\<open>data?: string | string[]\<close> is an optional value of the two-case type
  \<open>payload\<close>; \<open>None\<close> is JavaScript's \<^verbatim>\<open>undefined\<close>. Strings are lists of 8-bit
  characters, read as UTF-16 code units below 256.
\<close>

datatype ExecutionStateEnum = BUSY | IDLE | QUEUED

datatype DataTypeEnum = IMAGE_PNG | TABLE | TEXT | TEXT_PLAIN

definition DATA_TYPE_TEXTLIKE :: "DataTypeEnum list" where
  "DATA_TYPE_TEXTLIKE = [TEXT, TEXT_PLAIN]"

datatype MsgType = STATUS | STREAM

datatype payload = Str string | Arr "string list"

record KernelOutputType =
  data :: "payload option"
  error :: "string option"
  execution_state :: ExecutionStateEnum
  metadata :: "(string \<times> string) list option"
  msg_id :: string
  msg_type :: MsgType
  type :: DataTypeEnum
  uuid :: string

section \<open>The JavaScript operations the component uses\<close>

datatype js_error = TypeError | SyntaxError

text \<open>\<^verbatim>\<open>Array.prototype.join\<close> on an array of strings.\<close>

fun join :: "string \<Rightarrow> string list \<Rightarrow> string" where
  "join sep [] = []"
| "join sep [x] = x"
| "join sep (x # y # ys) = x @ sep @ join sep (y # ys)"

text \<open>\<^verbatim>\<open>arr.at(-1)\<close>: the last element, \<^verbatim>\<open>undefined\<close> on the empty array.\<close>

definition at_last :: "'a list \<Rightarrow> 'a option" where
  "at_last arr = (if arr = [] then None else Some (last arr))"

text \<open>
  \<^verbatim>\<open>const internalOutputRegex = /\[__internal_output__\]/\<close>: the regular expression
  matches the literal text below and nothing else, so \<^verbatim>\<open>s.match(internalOutputRegex)\<close>
  is truthy exactly when the text occurs in \<open>s\<close>, and
  \<^verbatim>\<open>s.replace(internalOutputRegex, '')\<close> removes its leftmost occurrence.
\<close>

definition internalOutputRegex :: string where
  "internalOutputRegex = ''[__internal_output__]''"

definition starts_with :: "string \<Rightarrow> string \<Rightarrow> bool" where
  "starts_with p s = (take (length p) s = p)"

fun match :: "string \<Rightarrow> string \<Rightarrow> bool" where
  "match re [] = starts_with re []"
| "match re (c # cs) = (starts_with re (c # cs) \<or> match re cs)"

fun replace :: "string \<Rightarrow> string \<Rightarrow> string" where
  "replace re [] = []"
| "replace re (c # cs) =
     (if starts_with re (c # cs) then drop (length re) (c # cs) else c # replace re cs)"

text \<open>
  \<^verbatim>\<open>last.data += s\<close> for a string \<open>s\<close>: the addition operator turns its left operand into
  a string first. An array becomes its elements joined by commas, \<^verbatim>\<open>undefined\<close> the text
  "undefined".
\<close>

definition js_plus :: "payload option \<Rightarrow> string \<Rightarrow> string" where
  "js_plus d s =
     (case d of
        None \<Rightarrow> ''undefined'' @ s
      | Some (Str a) \<Rightarrow> a @ s
      | Some (Arr xs) \<Rightarrow> join '','' xs @ s)"

section \<open>JSON values and \<^verbatim>\<open>JSON.parse\<close>\<close>

text \<open>
  The values \<^verbatim>\<open>JSON.parse\<close> returns. A string value is its list of UTF-16 code units, so
  that \<^verbatim>\<open>\u\<close> escapes and \<^verbatim>\<open>.length\<close> are exact; a number keeps its lexeme; an object keeps
  its members in source order (a repeated key reads as its last member).
\<close>

datatype json =
    JNull
  | JBool bool
  | JNumber string
  | JString "nat list"
  | JArray "json list"
  | JObject "(nat list \<times> json) list"

definition units :: "string \<Rightarrow> nat list" where
  "units s = map of_char s"

text \<open>
  The lexer reads one character at a time. A number and a literal name are collected up to
  the first character that cannot continue them and are checked then; no JSON text has one
  of the collected characters directly after a number or a name, so this accepts the texts
  of the JSON grammar (ECMA-404) and no others.
\<close>

datatype token =
    LBRACE | RBRACE | LBRACKET | RBRACKET | COLON | COMMA
  | STRING "nat list"
  | NUMBER string
  | LITERAL json

datatype lex_state =
    Between
  | InString "nat list"
  | Escape "nat list"
  | Unicode "nat list" "nat list"
  | InNumber string
  | InWord string

definition is_digit :: "char \<Rightarrow> bool" where
  "is_digit c = (c \<in> set ''0123456789'')"

definition hex_digit :: "char \<Rightarrow> nat option" where
  "hex_digit c =
     (if is_digit c then Some (of_char c - 48)
      else if c \<in> set ''abcdef'' then Some (of_char c - 87)
      else if c \<in> set ''ABCDEF'' then Some (of_char c - 55)
      else None)"

definition exponent_part :: "string \<Rightarrow> bool" where
  "exponent_part r =
     (case r of
        [] \<Rightarrow> True
      | c # r1 \<Rightarrow>
          c \<in> set ''eE'' \<and>
          (let r2 = (if take 1 r1 = ''+'' \<or> take 1 r1 = ''-'' then drop 1 r1 else r1)
           in r2 \<noteq> [] \<and> list_all is_digit r2))"

definition fraction_part :: "string \<Rightarrow> bool" where
  "fraction_part r =
     (case r of
        [] \<Rightarrow> True
      | c # r1 \<Rightarrow>
          if c = CHR ''.''
          then takeWhile is_digit r1 \<noteq> [] \<and> exponent_part (dropWhile is_digit r1)
          else exponent_part r)"

definition json_number :: "string \<Rightarrow> bool" where
  "json_number s =
     (let s1 = (if take 1 s = ''-'' then drop 1 s else s);
          ip = takeWhile is_digit s1
      in ip \<noteq> [] \<and> (if take 1 ip = ''0'' then length ip = 1 else True)
         \<and> fraction_part (dropWhile is_digit s1))"

definition json_word :: "string \<Rightarrow> json option" where
  "json_word w =
     (if w = ''true'' then Some (JBool True)
      else if w = ''false'' then Some (JBool False)
      else if w = ''null'' then Some JNull
      else None)"

definition start :: "char \<Rightarrow> (lex_state \<times> token list) option" where
  "start c =
     (if c \<in> set [CHR '' '', CHR 0x09, CHR 0x0A, CHR 0x0D] then Some (Between, [])
      else if c = CHR ''{'' then Some (Between, [LBRACE])
      else if c = CHR ''}'' then Some (Between, [RBRACE])
      else if c = CHR ''['' then Some (Between, [LBRACKET])
      else if c = CHR '']'' then Some (Between, [RBRACKET])
      else if c = CHR '':'' then Some (Between, [COLON])
      else if c = CHR '','' then Some (Between, [COMMA])
      else if c = CHR 0x22 then Some (InString [], [])
      else if c = CHR ''-'' \<or> is_digit c then Some (InNumber [c], [])
      else if c \<in> set ''abcdefghijklmnopqrstuvwxyz'' then Some (InWord [c], [])
      else None)"

definition after_token :: "token option \<Rightarrow> char \<Rightarrow> (lex_state \<times> token list) option" where
  "after_token t c =
     (case t of
        None \<Rightarrow> None
      | Some tok \<Rightarrow> (case start c of None \<Rightarrow> None | Some (st, ts) \<Rightarrow> Some (st, tok # ts)))"

definition number_token :: "string \<Rightarrow> token option" where
  "number_token s = (if json_number s then Some (NUMBER s) else None)"

definition word_token :: "string \<Rightarrow> token option" where
  "word_token w = map_option LITERAL (json_word w)"

fun lex_step :: "lex_state \<Rightarrow> char \<Rightarrow> (lex_state \<times> token list) option" where
  "lex_step Between c = start c"
| "lex_step (InString us) c =
     (if c = CHR 0x22 then Some (Between, [STRING us])
      else if c = CHR 0x5C then Some (Escape us, [])
      else if (of_char c :: nat) < 32 then None
      else Some (InString (us @ [of_char c]), []))"
| "lex_step (Escape us) c =
     (if c = CHR 0x22 \<or> c = CHR 0x5C \<or> c = CHR ''/'' then Some (InString (us @ [of_char c]), [])
      else if c = CHR ''b'' then Some (InString (us @ [8]), [])
      else if c = CHR ''f'' then Some (InString (us @ [12]), [])
      else if c = CHR ''n'' then Some (InString (us @ [10]), [])
      else if c = CHR ''r'' then Some (InString (us @ [13]), [])
      else if c = CHR ''t'' then Some (InString (us @ [9]), [])
      else if c = CHR ''u'' then Some (Unicode us [], [])
      else None)"
| "lex_step (Unicode us ds) c =
     (case hex_digit c of
        None \<Rightarrow> None
      | Some d \<Rightarrow>
          if length ds = 3
          then Some (InString (us @ [foldl (\<lambda>n x. 16 * n + x) 0 (ds @ [d])]), [])
          else Some (Unicode us (ds @ [d]), []))"
| "lex_step (InNumber s) c =
     (if c \<in> set ''0123456789+-.eE'' then Some (InNumber (s @ [c]), [])
      else after_token (number_token s) c)"
| "lex_step (InWord w) c =
     (if c \<in> set ''abcdefghijklmnopqrstuvwxyz'' then Some (InWord (w @ [c]), [])
      else after_token (word_token w) c)"

fun lex_end :: "lex_state \<Rightarrow> token list option" where
  "lex_end Between = Some []"
| "lex_end (InNumber s) = map_option (\<lambda>t. [t]) (number_token s)"
| "lex_end (InWord w) = map_option (\<lambda>t. [t]) (word_token w)"
| "lex_end _ = None"

fun lex :: "lex_state \<Rightarrow> string \<Rightarrow> token list option" where
  "lex st [] = lex_end st"
| "lex st (c # cs) =
     (case lex_step st c of
        None \<Rightarrow> None
      | Some (st1, ts) \<Rightarrow> map_option (\<lambda>rest. ts @ rest) (lex st1 cs))"

text \<open>
  The parser reads one token at a time and keeps the open arrays and objects on a stack: an
  array with its elements so far, an object with its members so far, an object whose next
  member has its key and waits for the value.
\<close>

datatype frame =
    InArray "json list"
  | InObject "(nat list \<times> json) list"
  | InMember "(nat list \<times> json) list" "nat list"

datatype expect = Value | ValueOrClose | KeyOrClose | Key | Colon | Next | End json

fun deliver :: "json \<Rightarrow> frame list \<Rightarrow> (expect \<times> frame list) option" where
  "deliver v [] = Some (End v, [])"
| "deliver v (InArray xs # st) = Some (Next, InArray (xs @ [v]) # st)"
| "deliver v (InMember ms k # st) = Some (Next, InObject (ms @ [(k, v)]) # st)"
| "deliver v (InObject ms # st) = None"

definition begin_value :: "frame list \<Rightarrow> token \<Rightarrow> (expect \<times> frame list) option" where
  "begin_value st t =
     (case t of
        LBRACKET \<Rightarrow> Some (ValueOrClose, InArray [] # st)
      | LBRACE \<Rightarrow> Some (KeyOrClose, InObject [] # st)
      | STRING s \<Rightarrow> deliver (JString s) st
      | NUMBER n \<Rightarrow> deliver (JNumber n) st
      | LITERAL v \<Rightarrow> deliver v st
      | _ \<Rightarrow> None)"

definition begin_member :: "frame list \<Rightarrow> token \<Rightarrow> (expect \<times> frame list) option" where
  "begin_member st t =
     (case (t, st) of
        (STRING k, InObject ms # st1) \<Rightarrow> Some (Colon, InMember ms k # st1)
      | _ \<Rightarrow> None)"

definition close :: "frame list \<Rightarrow> token \<Rightarrow> (expect \<times> frame list) option" where
  "close st t =
     (case (t, st) of
        (RBRACKET, InArray xs # st1) \<Rightarrow> deliver (JArray xs) st1
      | (RBRACE, InObject ms # st1) \<Rightarrow> deliver (JObject ms) st1
      | _ \<Rightarrow> None)"

fun parse_step :: "expect \<Rightarrow> frame list \<Rightarrow> token \<Rightarrow> (expect \<times> frame list) option" where
  "parse_step Value st t = begin_value st t"
| "parse_step ValueOrClose st t = (if t = RBRACKET then close st t else begin_value st t)"
| "parse_step KeyOrClose st t = (if t = RBRACE then close st t else begin_member st t)"
| "parse_step Key st t = begin_member st t"
| "parse_step Colon st t = (if t = COLON then Some (Value, st) else None)"
| "parse_step Next st t =
     (if t = COMMA then
        (case st of
           InArray xs # st1 \<Rightarrow> Some (Value, st)
         | InObject ms # st1 \<Rightarrow> Some (Key, st)
         | _ \<Rightarrow> None)
      else close st t)"
| "parse_step (End v) st t = None"

fun parse_tokens :: "expect \<Rightarrow> frame list \<Rightarrow> token list \<Rightarrow> json option" where
  "parse_tokens e st [] = (case e of End v \<Rightarrow> Some v | _ \<Rightarrow> None)"
| "parse_tokens e st (t # ts) =
     (case parse_step e st t of
        None \<Rightarrow> None
      | Some (e1, st1) \<Rightarrow> parse_tokens e1 st1 ts)"

text \<open>\<^verbatim>\<open>JSON.parse(s)\<close>: the value, or the SyntaxError it throws.\<close>

definition JSON_parse :: "string \<Rightarrow> js_error + json" where
  "JSON_parse s =
     (case lex Between s of
        None \<Rightarrow> Inl SyntaxError
      | Some ts \<Rightarrow> (case parse_tokens Value [] ts of None \<Rightarrow> Inl SyntaxError | Some v \<Rightarrow> Inr v))"

text \<open>
  Modelled from the spec: \<^verbatim>\<open>isJsonString\<close> of \<^verbatim>\<open>@utils/string\<close> is imported by the component
  and is not among the sources. The spec has the classifier "attempt to parse the remainder
  as a JSON object" and go on "if parsing fails": the function tells whether
  \<^verbatim>\<open>JSON.parse\<close> returns.
\<close>

definition isJsonString :: "string \<Rightarrow> bool" where
  "isJsonString s = (case JSON_parse s of Inl e \<Rightarrow> False | Inr v \<Rightarrow> True)"

text \<open>
  Reading a property of a value that is neither \<^verbatim>\<open>null\<close> nor \<^verbatim>\<open>undefined\<close>; \<open>None\<close> is
  \<^verbatim>\<open>undefined\<close>. The names the component reads (data, type, columns, index, rows) are
  properties of parsed objects only: arrays, strings, numbers and booleans have none of
  them. \<^verbatim>\<open>length\<close> is read by \<open>length_ge_1\<close> below.
\<close>

definition get :: "string \<Rightarrow> json \<Rightarrow> json option" where
  "get name v = (case v of JObject ms \<Rightarrow> map_of (rev ms) (units name) | _ \<Rightarrow> None)"

subsection \<open>The comparison \<^verbatim>\<open>x >= 1\<close>\<close>

text \<open>
  \<^verbatim>\<open>x >= 1\<close> turns \<open>x\<close> into a number first. A decimal literal with digits \<open>n\<close> and decimal
  exponent \<open>e\<close> denotes \<open>n * 10 ^ e\<close>; the double nearest to it (ties to even) is at least 1
  exactly when the literal is at least \<open>1 - 2 ^ -54\<close>, the midpoint below 1.
\<close>

definition digits_value :: "string \<Rightarrow> nat" where
  "digits_value ds = foldl (\<lambda>n c. 10 * n + (of_char c - 48)) 0 ds"

definition exponent_value :: "string \<Rightarrow> int option" where
  "exponent_value r =
     (case r of
        [] \<Rightarrow> Some 0
      | c # r1 \<Rightarrow>
          if c \<in> set ''eE'' then
            (let r2 = (if take 1 r1 = ''+'' \<or> take 1 r1 = ''-'' then drop 1 r1 else r1)
             in if r2 \<noteq> [] \<and> list_all is_digit r2
                then Some (if take 1 r1 = ''-'' then - int (digits_value r2)
                           else int (digits_value r2))
                else None)
          else None)"

definition decimal_literal :: "string \<Rightarrow> (nat \<times> int) option" where
  "decimal_literal s =
     (let ip = takeWhile is_digit s;
          r1 = dropWhile is_digit s;
          fp = (if take 1 r1 = ''.'' then takeWhile is_digit (drop 1 r1) else []);
          r2 = (if take 1 r1 = ''.'' then dropWhile is_digit (drop 1 r1) else r1)
      in if ip = [] \<and> fp = [] then None
         else (case exponent_value r2 of
                 None \<Rightarrow> None
               | Some e \<Rightarrow> Some (digits_value (ip @ fp), e - int (length fp))))"

definition rounds_to_at_least_1 :: "nat \<times> int \<Rightarrow> bool" where
  "rounds_to_at_least_1 p =
     (case p of
        (n, e) \<Rightarrow>
          if 0 \<le> e then (2 ^ 54 - 1 :: int) \<le> int n * 10 ^ nat e * 2 ^ 54
          else (2 ^ 54 - 1) * 10 ^ nat (- e) \<le> int n * 2 ^ 54)"

definition number_ge_1 :: "string \<Rightarrow> bool" where
  "number_ge_1 s =
     (if take 1 s = ''-'' then False
      else (case decimal_literal s of None \<Rightarrow> False | Some p \<Rightarrow> rounds_to_at_least_1 p))"

text \<open>
  A string is a number when, with white space and line terminators trimmed, it is a
  numeric literal: a signed decimal literal or Infinity, or an unsigned hexadecimal, octal
  or binary integer. The empty string is 0; any other text is NaN, which is not at least 1.
\<close>

definition js_white_space :: "nat \<Rightarrow> bool" where
  "js_white_space u =
     (u \<in> set [9, 10, 11, 12, 13, 32, 160, 5760, 8232, 8233, 8239, 8287, 12288, 65279]
      \<or> (8192 \<le> u \<and> u \<le> 8202))"

definition trim :: "nat list \<Rightarrow> nat list" where
  "trim us = rev (dropWhile js_white_space (rev (dropWhile js_white_space us)))"

definition radix_ge_1 :: "string \<Rightarrow> string \<Rightarrow> bool" where
  "radix_ge_1 allowed ds =
     (ds \<noteq> [] \<and> list_all (\<lambda>c. c \<in> set allowed) ds \<and> \<not> list_all (\<lambda>c. c = CHR ''0'') ds)"

definition string_ge_1 :: "nat list \<Rightarrow> bool" where
  "string_ge_1 us =
     (if \<not> list_all (\<lambda>u. u < 128) (trim us) then False
      else
        (let s = map char_of (trim us) in
         if s = ''Infinity'' \<or> s = ''+Infinity'' then True
         else if take 1 s = ''-'' then False
         else if take 2 s = ''0x'' \<or> take 2 s = ''0X''
           then radix_ge_1 ''0123456789abcdefABCDEF'' (drop 2 s)
         else if take 2 s = ''0o'' \<or> take 2 s = ''0O'' then radix_ge_1 ''01234567'' (drop 2 s)
         else if take 2 s = ''0b'' \<or> take 2 s = ''0B'' then radix_ge_1 ''01'' (drop 2 s)
         else (case decimal_literal (if take 1 s = ''+'' then drop 1 s else s) of
                 None \<Rightarrow> False
               | Some p \<Rightarrow> rounds_to_at_least_1 p)))"

text \<open>
  A parsed value: \<^verbatim>\<open>null\<close> is 0, \<^verbatim>\<open>true\<close> is 1, an object is NaN. An array is first the
  string of its elements joined by commas: the empty array is the empty string, an array of
  two or more has a comma and is NaN, an array of one element is that element's string
  (empty for \<^verbatim>\<open>null\<close>, the name for a boolean, and for a number a literal that reads back
  as the number).
\<close>

fun ge_1 :: "json \<Rightarrow> bool" where
  "ge_1 (JBool b) = b"
| "ge_1 (JNumber s) = number_ge_1 s"
| "ge_1 (JString us) = string_ge_1 us"
| "ge_1 (JArray [JBool b]) = False"
| "ge_1 (JArray [x]) = ge_1 x"
| "ge_1 v = False"

text \<open>
  \<^verbatim>\<open>rows.length >= 1\<close> for \<open>rows\<close> neither \<^verbatim>\<open>null\<close> nor \<^verbatim>\<open>undefined\<close>: an array and a string
  have their length; a number and a boolean have no such property, and \<^verbatim>\<open>undefined >= 1\<close>
  is false; an object has it when it has a member of that name.
\<close>

definition length_ge_1 :: "json \<Rightarrow> bool" where
  "length_ge_1 rows =
     (case rows of
        JArray xs \<Rightarrow> 1 \<le> length xs
      | JString us \<Rightarrow> 1 \<le> length us
      | JObject ms \<Rightarrow> (case get ''length'' rows of None \<Rightarrow> False | Some v \<Rightarrow> ge_1 v)
      | _ \<Rightarrow> False)"

section \<open>The aggregation of messages (CodeOutput, combinedMessages)\<close>

text \<open>
  \<^verbatim>\<open>const combineTextData = (data) => (Array.isArray(data) ? data.join('\n') : data)\<close>.
  The function hands \<^verbatim>\<open>undefined\<close> back as it is; the caller's \<^verbatim>\<open>.match\<close> then raises.
\<close>

definition combineTextData :: "payload option \<Rightarrow> string option" where
  "combineTextData d =
     (case d of
        None \<Rightarrow> None
      | Some (Str s) \<Rightarrow> Some s
      | Some (Arr xs) \<Rightarrow> Some (join [CHR 0x0A] xs))"

text \<open>
  The second and third branch of the reducer: a text-like message without the marker is
  pushed with its data combined, any other message is pushed as a shallow copy.
\<close>

definition push_message ::
  "KernelOutputType list \<Rightarrow> KernelOutputType \<Rightarrow> js_error + KernelOutputType list" where
  "push_message arr cur =
     (if type cur \<in> set DATA_TYPE_TEXTLIKE then
        (case combineTextData (data cur) of
           None \<Rightarrow> Inl TypeError
         | Some s \<Rightarrow>
             if \<not> match internalOutputRegex s
             then Inr (arr @ [cur\<lparr>data := Some (Str s)\<rparr>])
             else Inr (arr @ [cur]))
      else Inr (arr @ [cur]))"

text \<open>
  The callback of \<^verbatim>\<open>messages.reduce\<close>. The first condition is a conjunction evaluated
  from the left: without a last entry, with a last entry that is not text-like, or with
  one of another type, \<^verbatim>\<open>curr.data\<close> is not looked at there.
\<close>

definition reducer ::
  "KernelOutputType list \<Rightarrow> KernelOutputType \<Rightarrow> js_error + KernelOutputType list" where
  "reducer arr cur =
     (case at_last arr of
        None \<Rightarrow> push_message arr cur
      | Some l \<Rightarrow>
          if type l \<in> set DATA_TYPE_TEXTLIKE \<and> type l = type cur then
            (case combineTextData (data cur) of
               None \<Rightarrow> Inl TypeError
             | Some s \<Rightarrow>
                 if \<not> match internalOutputRegex s
                 then Inr (butlast arr @ [l\<lparr>data := Some (Str (js_plus (data l) s))\<rparr>])
                 else push_message arr cur)
          else push_message arr cur)"

fun reduce :: "('b \<Rightarrow> 'a \<Rightarrow> js_error + 'b) \<Rightarrow> 'a list \<Rightarrow> 'b \<Rightarrow> js_error + 'b" where
  "reduce f [] acc = Inr acc"
| "reduce f (x # xs) acc = (case f acc x of Inl e \<Rightarrow> Inl e | Inr acc' \<Rightarrow> reduce f xs acc')"

definition combinedMessages :: "KernelOutputType list \<Rightarrow> js_error + KernelOutputType list" where
  "combinedMessages messages = reduce reducer messages []"

subsection \<open>The aggregation on the object store\<close>

text \<open>
  In the component the messages and the entries are objects, and an array holds
  references. The store lists the objects by address. \<^verbatim>\<open>{ ...curr }\<close> allocates a new
  object with the fields of \<^verbatim>\<open>curr\<close>; \<^verbatim>\<open>last.data += ...\<close> writes the field of the object
  that \<^verbatim>\<open>last\<close> refers to. A data array is never written to (only joined, read and
  filtered into a new array), so it is a value of the field. A thrown error leaves the
  store as it is at that moment.
\<close>

type_synonym addr = nat

type_synonym store = "KernelOutputType list"

definition alloc :: "store \<Rightarrow> KernelOutputType \<Rightarrow> store \<times> addr" where
  "alloc h obj = (h @ [obj], length h)"

definition push_message_ref ::
  "store \<Rightarrow> addr list \<Rightarrow> addr \<Rightarrow> (js_error + addr list) \<times> store" where
  "push_message_ref h arr c =
     (let cur = h ! c in
      if type cur \<in> set DATA_TYPE_TEXTLIKE then
        (case combineTextData (data cur) of
           None \<Rightarrow> (Inl TypeError, h)
         | Some s \<Rightarrow>
             if \<not> match internalOutputRegex s
             then (let (h1, a) = alloc h (cur\<lparr>data := Some (Str s)\<rparr>) in (Inr (arr @ [a]), h1))
             else (let (h1, a) = alloc h cur in (Inr (arr @ [a]), h1)))
      else (let (h1, a) = alloc h cur in (Inr (arr @ [a]), h1)))"

definition reducer_ref ::
  "store \<Rightarrow> addr list \<Rightarrow> addr \<Rightarrow> (js_error + addr list) \<times> store" where
  "reducer_ref h arr c =
     (case at_last arr of
        None \<Rightarrow> push_message_ref h arr c
      | Some l \<Rightarrow>
          if type (h ! l) \<in> set DATA_TYPE_TEXTLIKE \<and> type (h ! l) = type (h ! c) then
            (case combineTextData (data (h ! c)) of
               None \<Rightarrow> (Inl TypeError, h)
             | Some s \<Rightarrow>
                 if \<not> match internalOutputRegex s
                 then (Inr arr, h[l := (h ! l)\<lparr>data := Some (Str (js_plus (data (h ! l)) s))\<rparr>])
                 else push_message_ref h arr c)
          else push_message_ref h arr c)"

fun reduce_ref :: "store \<Rightarrow> addr list \<Rightarrow> addr list \<Rightarrow> (js_error + addr list) \<times> store" where
  "reduce_ref h arr [] = (Inr arr, h)"
| "reduce_ref h arr (c # cs) =
     (case reducer_ref h arr c of
        (Inl e, h1) \<Rightarrow> (Inl e, h1)
      | (Inr arr1, h1) \<Rightarrow> reduce_ref h1 arr1 cs)"

definition combinedMessages_ref ::
  "store \<Rightarrow> addr list \<Rightarrow> (js_error + addr list) \<times> store" where
  "combinedMessages_ref h messages = reduce_ref h [] messages"

text \<open>What a result holds: the error, or the objects its references point to.\<close>

definition deref :: "store \<Rightarrow> js_error + addr list \<Rightarrow> js_error + KernelOutputType list" where
  "deref h r = (case r of Inl e \<Rightarrow> Inl e | Inr arr \<Rightarrow> Inr (map (nth h) arr))"

text \<open>
  The invariant of the loop: the entries are distinct objects allocated after the first
  \<open>n\<close> objects of the store (which include the messages).
\<close>

definition fresh_entries :: "nat \<Rightarrow> store \<Rightarrow> addr list \<Rightarrow> bool" where
  "fresh_entries n h arr =
     (n \<le> length h \<and> distinct arr \<and> list_all (\<lambda>a. n \<le> a \<and> a < length h) arr)"

section \<open>Rendering (CodeOutput)\<close>

text \<open>
  The elements the component creates for a fragment: the data table with the columns,
  index and rows read from its argument, the output row of ANSI text with its
  \<^verbatim>\<open>first\<close> and \<^verbatim>\<open>last\<close> properties, and the image with the entry's index (in its
  alternative text) and the data (in its source). Styling properties (widths, heights,
  borders, \<^verbatim>\<open>disableScrolling\<close>) are left out. Every fragment is wrapped in a
  \<^verbatim>\<open>div\<close> keyed by the two indices; its child is \<open>None\<close> when \<^verbatim>\<open>displayElement\<close> is
  \<^verbatim>\<open>undefined\<close> or \<^verbatim>\<open>false\<close>, which render nothing.
\<close>

datatype element =
    DataTable "json option" "json option" json
  | OutputRow bool bool string
  | Img nat string

datatype output_div = Div nat nat "element option"

text \<open>
  \<^verbatim>\<open>createDataTableElement\<close>: the parameter \<^verbatim>\<open>{ columns, index, rows }\<close> is destructured,
  which throws on \<^verbatim>\<open>null\<close> and \<^verbatim>\<open>undefined\<close>; \<^verbatim>\<open>rows.length\<close> throws when \<^verbatim>\<open>rows\<close> is
  \<^verbatim>\<open>null\<close> or \<^verbatim>\<open>undefined\<close>.
\<close>

definition createDataTableElement :: "json option \<Rightarrow> js_error + element option" where
  "createDataTableElement arg =
     (case arg of
        None \<Rightarrow> Inl TypeError
      | Some JNull \<Rightarrow> Inl TypeError
      | Some v \<Rightarrow>
          (case get ''rows'' v of
             None \<Rightarrow> Inl TypeError
           | Some JNull \<Rightarrow> Inl TypeError
           | Some rows \<Rightarrow>
               if length_ge_1 rows
               then Inr (Some (DataTable (get ''columns'' v) (get ''index'' v) rows))
               else Inr None))"

text \<open>
  The body of the inner \<^verbatim>\<open>dataArray.map\<close> up to \<^verbatim>\<open>displayElement\<close>. The fragment
  \<^verbatim>\<open>data\<close> is a string. \<^verbatim>\<open>const { data, type } = JSON.parse(rawString)\<close> throws when the
  parsed value is \<^verbatim>\<open>null\<close>.
\<close>

definition displayElement ::
  "nat \<Rightarrow> DataTypeEnum \<Rightarrow> nat \<Rightarrow> nat \<Rightarrow> string \<Rightarrow> nat \<Rightarrow> js_error + element option" where
  "displayElement numberOfMessages dataType idx dataArrayLength d idxInner =
     (let first = (idx = 0 \<and> idxInner = 0);
          last = (int idx = int numberOfMessages - 1 \<and> int idxInner = int dataArrayLength - 1)
      in
      if match internalOutputRegex d then
        (let rawString = replace internalOutputRegex d in
         if isJsonString rawString then
           (case JSON_parse rawString of
              Inl e \<Rightarrow> Inl e
            | Inr JNull \<Rightarrow> Inl TypeError
            | Inr parsed \<Rightarrow>
                if get ''type'' parsed = Some (JString (units ''table''))
                then createDataTableElement (get ''data'' parsed)
                else Inr None)
         else Inr None)
      else if dataType = TABLE then
        (if isJsonString d
         then (case JSON_parse d of Inl e \<Rightarrow> Inl e | Inr v \<Rightarrow> createDataTableElement (Some v))
         else createDataTableElement (Some (JString (units d))))
      else if dataType \<in> set DATA_TYPE_TEXTLIKE then Inr (Some (OutputRow first last d))
      else if dataType = IMAGE_PNG then Inr (Some (Img idx d))
      else Inr None)"

text \<open>A callback that throws ends \<^verbatim>\<open>map\<close> at that element.\<close>

fun sequence :: "(js_error + 'a) list \<Rightarrow> js_error + 'a list" where
  "sequence [] = Inr []"
| "sequence (x # xs) =
     (case x of
        Inl e \<Rightarrow> Inl e
      | Inr v \<Rightarrow> (case sequence xs of Inl e \<Rightarrow> Inl e | Inr vs \<Rightarrow> Inr (v # vs)))"

text \<open>
  The callback of \<^verbatim>\<open>combinedMessages.map\<close>: \<open>None\<close> is its bare \<^verbatim>\<open>return\<close> for data that
  is missing, the empty string or the empty array. \<^verbatim>\<open>filter(d => d)\<close> keeps the non-empty
  strings.
\<close>

definition render_message ::
  "nat \<Rightarrow> KernelOutputType \<Rightarrow> nat \<Rightarrow> js_error + output_div list option" where
  "render_message numberOfMessages entry idx =
     (case data entry of
        None \<Rightarrow> Inr None
      | Some dataInit \<Rightarrow>
          if dataInit = Str [] \<or> dataInit = Arr [] then Inr None
          else
            (let dataArray = filter (\<lambda>d. d \<noteq> []) (case dataInit of Arr xs \<Rightarrow> xs | Str x \<Rightarrow> [x]);
                 dataArrayLength = length dataArray
             in case sequence (map (\<lambda>(idxInner, d).
                       case displayElement numberOfMessages (type entry) idx dataArrayLength d idxInner of
                         Inl e \<Rightarrow> Inl e
                       | Inr el \<Rightarrow> Inr (Div idx idxInner el))
                     (enumerate 0 dataArray)) of
                  Inl e \<Rightarrow> Inl e
                | Inr divs \<Rightarrow> Inr (Some divs)))"

definition render_messages ::
  "nat \<Rightarrow> KernelOutputType list \<Rightarrow> js_error + output_div list option list" where
  "render_messages numberOfMessages combined =
     sequence (map (\<lambda>(idx, entry). render_message numberOfMessages entry idx) (enumerate 0 combined))"

text \<open>
  Modelled from the spec: \<^verbatim>\<open>StatusTypeEnum\<close> of \<^verbatim>\<open>@interfaces/BlockType\<close> is not among the
  sources. The spec names the status it compares with: "the block's persisted status equals
  executed". A status is the string of the enumeration's member.
\<close>

definition EXECUTED :: string where
  "EXECUTED = ''executed''"

record BlockType =
  status :: string

record CodeOutputProps =
  block :: BlockType
  hasError :: bool
  isInProgress :: bool
  mainContainerWidth :: int
  messages :: "KernelOutputType list"
  runCount :: int
  runEndTime :: int
  runStartTime :: int
  selected :: bool

text \<open>The expression bound to \<^verbatim>\<open>executedAndIdle\<close>.\<close>

definition executedAndIdle :: "string \<Rightarrow> bool \<Rightarrow> int \<Rightarrow> nat \<Rightarrow> int \<Rightarrow> int \<Rightarrow> bool" where
  "executedAndIdle st inProgress count numberOfMessages endTime startTime =
     (EXECUTED = st
      \<or> (\<not> inProgress \<and> count = 0 \<and> numberOfMessages \<ge> 1)
      \<or> (\<not> inProgress \<and> count \<ge> 1 \<and> endTime \<ge> startTime))"

text \<open>
  What the component returns: the flag handed to the container (the extra information
  with the check mark is rendered exactly when it is set) and the container's children.
\<close>

record CodeOutputElement =
  finished :: bool
  children :: "output_div list option list"

text \<open>
  The component, in the order of its statements: the number of messages, the type of the
  first message (\<^verbatim>\<open>messages[0].type\<close> throws on the empty array), the finished flag, the
  combined messages and their rendering.
\<close>

definition CodeOutput :: "CodeOutputProps \<Rightarrow> js_error + CodeOutputElement" where
  "CodeOutput props =
     (let numberOfMessages = length (messages props) in
      case messages props of
        [] \<Rightarrow> Inl TypeError
      | m0 # rest \<Rightarrow>
          (let primaryDataType = type m0;
               flag = executedAndIdle (status (block props)) (isInProgress props) (runCount props)
                        numberOfMessages (runEndTime props) (runStartTime props)
           in case combinedMessages (messages props) of
                Inl e \<Rightarrow> Inl e
              | Inr combined \<Rightarrow>
                  (case render_messages numberOfMessages combined of
                     Inl e \<Rightarrow> Inl e
                   | Inr divs \<Rightarrow> Inr \<lparr>finished = flag, children = divs\<rparr>)))"

section \<open>Notions used in the statements\<close>

text \<open>
  The non-empty string fragments of an entry: its data as an array, without the empty
  strings.
\<close>

definition fragments :: "KernelOutputType \<Rightarrow> string list" where
  "fragments e =
     filter (\<lambda>d. d \<noteq> [])
       (case data e of None \<Rightarrow> [] | Some (Str x) \<Rightarrow> [x] | Some (Arr xs) \<Rightarrow> xs)"

text \<open>
  The element of a fragment without the marker in an entry that is not a table: the image
  for an image entry, the output row with the two flags of the component otherwise.
\<close>

definition instruction :: "nat \<Rightarrow> KernelOutputType \<Rightarrow> nat \<Rightarrow> nat \<Rightarrow> string \<Rightarrow> element" where
  "instruction n e idx j d =
     (if type e = IMAGE_PNG then Img idx d
      else OutputRow (idx = 0 \<and> j = 0)
             (int idx = int n - 1 \<and> int j = int (length (fragments e)) - 1) d)"

text \<open>
  An entry stands for a group of consecutive messages: it is the first message of the group
  with other data. For a group of one the data is what the reducer pushes (the combined
  text for a text-like message without the marker, the message's own data otherwise); for
  a longer group it is that data as a string, followed by the combined texts of the other
  messages in their order. The empty group has no entry.
\<close>

definition pushed_data :: "KernelOutputType \<Rightarrow> payload option" where
  "pushed_data m =
     (case combineTextData (data m) of
        None \<Rightarrow> data m
      | Some s \<Rightarrow>
          if type m \<in> set DATA_TYPE_TEXTLIKE \<and> \<not> match internalOutputRegex s
          then Some (Str s) else data m)"

definition combined_text :: "KernelOutputType \<Rightarrow> string" where
  "combined_text m = (case combineTextData (data m) of None \<Rightarrow> [] | Some s \<Rightarrow> s)"

fun stands_for :: "KernelOutputType \<Rightarrow> KernelOutputType list \<Rightarrow> bool" where
  "stands_for e [] = False"
| "stands_for e [m] = (e = m\<lparr>data := pushed_data m\<rparr>)"
| "stands_for e (m # m1 # ms) =
     (e = m\<lparr>data := Some (Str (js_plus (pushed_data m) (concat (map combined_text (m1 # ms)))))\<rparr>)"

text \<open>A message the reducer can combine: a text-like message has data.\<close>

definition has_text :: "KernelOutputType \<Rightarrow> bool" where
  "has_text m = (if type m \<in> set DATA_TYPE_TEXTLIKE then data m \<noteq> None else True)"

section \<open>Concrete inputs\<close>

definition message :: "DataTypeEnum \<Rightarrow> payload option \<Rightarrow> KernelOutputType" where
  "message t d =
     \<lparr>data = d, error = None, execution_state = IDLE, metadata = None, msg_id = ''m'',
      msg_type = STREAM, type = t, uuid = ''u''\<rparr>"

definition props_of ::
  "string \<Rightarrow> bool \<Rightarrow> int \<Rightarrow> KernelOutputType list \<Rightarrow> CodeOutputProps" where
  "props_of st inProgress count ms =
     \<lparr>block = \<lparr>status = st\<rparr>, hasError = False, isInProgress = inProgress,
      mainContainerWidth = 800, messages = ms, runCount = count, runEndTime = 0,
      runStartTime = 0, selected = False\<rparr>"

definition table_payload :: string where
  "table_payload = ''[__internal_output__]{\"data\":[[\"a\",\"b\"]],\"type\":\"table\"}''"

definition text_payload :: string where
  "text_payload = ''[__internal_output__]{\"data\":[[\"a\",\"b\"]],\"type\":\"text\"}''"

definition rows_payload :: string where
  "rows_payload = ''[__internal_output__]{\"data\":{\"rows\":[[\"a\",\"b\"]]},\"type\":\"table\"}''"

definition no_rows_payload :: string where
  "no_rows_payload = ''[__internal_output__]{\"data\":{\"rows\":[]},\"type\":\"table\"}''"

definition table_json :: string where
  "table_json = ''{\"columns\":[\"a\"],\"rows\":[[1]]}''"

definition null_payload :: string where
  "null_payload = ''[__internal_output__]null''"

definition marked_text :: string where
  "marked_text = ''[__internal_output__]x''"

definition hello_store :: store where
  "hello_store =
     [message TEXT (Some (Str ''Hello '')), message TEXT (Some (Arr [''big'', ''World''])),
      message IMAGE_PNG (Some (Str ''QUJD''))]"

section \<open>Aggregation: the merge law\<close>



section \<open>Aggregation: a marked entry and the text after it\<close>

text \<open>
  C2. The reducer looks for the marker in the incoming message only. A text message that
  carries the marker is pushed as its own entry; the next text message without the marker
  is then appended to that entry: the two messages below give one entry, and the table of
  the first is no longer rendered.
\<close>

theorem combinedMessages_appends_to_marked_entry:
  "combinedMessages [message TEXT (Some (Str rows_payload)), message TEXT (Some (Str ''done''))]
     = Inr [message TEXT (Some (Str (rows_payload @ ''done'')))]
   \<and> render_messages 2 [message TEXT (Some (Str (rows_payload @ ''done'')))]
     = Inr [Some [Div 0 0 None]]"
  by code_simp

section \<open>Aggregation: order and completeness\<close>

lemma combineTextData_defined: "d \<noteq> None \<Longrightarrow> \<exists>s. combineTextData d = Some s"
  by (cases d) (auto simp: combineTextData_def split: payload.splits)

lemma js_plus_append: "js_plus d (a @ b) = js_plus d a @ b"
  by (simp add: js_plus_def split: option.splits payload.splits)

lemma stands_for_snoc:
  assumes "stands_for l g" and "combineTextData (data c) = Some s"
  shows "stands_for (l\<lparr>data := Some (Str (js_plus (data l) s))\<rparr>) (g @ [c])"
proof (cases g)
  case Nil
  then show ?thesis using assms by simp
next
  case (Cons m ms)
  show ?thesis
  proof (cases ms)
    case Nil
    then show ?thesis using assms Cons by (simp add: combined_text_def)
  next
    case (Cons m1 ms1)
    then show ?thesis
      using assms \<open>g = m # ms\<close>
      by (simp add: combined_text_def js_plus_append) (simp add: js_plus_def)
  qed
qed

lemma push_message_groups:
  assumes "has_text c"
  shows "\<exists>e. push_message acc c = Inr (acc @ [e]) \<and> stands_for e [c]"
  using assms
  by (auto simp: push_message_def has_text_def pushed_data_def combineTextData_def
      split: option.splits payload.splits)

lemma reducer_groups:
  assumes "has_text c" and "list_all2 stands_for acc gs"
  shows "\<exists>acc1 gs1. reducer acc c = Inr acc1 \<and> concat gs1 = concat gs @ [c]
           \<and> list_all2 stands_for acc1 gs1"
proof -
  have push: "\<exists>acc1 gs1. push_message acc c = Inr acc1 \<and> concat gs1 = concat gs @ [c]
           \<and> list_all2 stands_for acc1 gs1"
  proof -
    obtain e where e: "push_message acc c = Inr (acc @ [e])" "stands_for e [c]"
      using push_message_groups [OF assms(1)] by blast
    have "concat (gs @ [[c]]) = concat gs @ [c]" by simp
    moreover have "list_all2 stands_for (acc @ [e]) (gs @ [[c]])"
      using assms(2) e(2) by (simp add: list_all2_appendI)
    ultimately show ?thesis using e(1) by blast
  qed
  show ?thesis
  proof (cases "at_last acc")
    case None
    then show ?thesis using push by (simp add: reducer_def)
  next
    case (Some l)
    then have acc: "acc = butlast acc @ [l]"
      by (auto simp: at_last_def split: if_splits)
    have "list_all2 stands_for (butlast acc @ [l]) gs"
      using assms(2) acc by simp
    then obtain gs0 vs where vs: "gs = gs0 @ vs" "list_all2 stands_for (butlast acc) gs0"
        "list_all2 stands_for [l] vs"
      unfolding list_all2_append1 by blast
    then obtain g where "vs = [g]" "stands_for l g"
      by (auto simp: list_all2_Cons1)
    with vs have gs: "gs = gs0 @ [g]" "list_all2 stands_for (butlast acc) gs0" "stands_for l g"
      by simp_all
    show ?thesis
    proof (cases "type l \<in> set DATA_TYPE_TEXTLIKE \<and> type l = type c")
      case False
      then show ?thesis using push Some by (auto simp: reducer_def)
    next
      case True
      then obtain s where s: "combineTextData (data c) = Some s"
        using assms(1) combineTextData_defined [of "data c"] by (auto simp: has_text_def)
      show ?thesis
      proof (cases "match internalOutputRegex s")
        case True
        then show ?thesis using push Some s by (auto simp: reducer_def)
      next
        case False
        let ?l = "l\<lparr>data := Some (Str (js_plus (data l) s))\<rparr>"
        have red: "reducer acc c = Inr (butlast acc @ [?l])"
          using Some True s False by (auto simp: reducer_def)
        have "concat (gs0 @ [g @ [c]]) = concat gs @ [c]" using gs(1) by simp
        moreover have "list_all2 stands_for (butlast acc @ [?l]) (gs0 @ [g @ [c]])"
          using gs(2) stands_for_snoc [OF gs(3) s] by (simp add: list_all2_appendI)
        ultimately show ?thesis using red by blast
      qed
    qed
  qed
qed

lemma reduce_groups:
  assumes "list_all has_text ms" and "list_all2 stands_for acc gs"
  shows "\<exists>es gs1. reduce reducer ms acc = Inr es \<and> concat gs1 = concat gs @ ms
           \<and> list_all2 stands_for es gs1"
  using assms
proof (induction ms arbitrary: acc gs)
  case Nil
  then show ?case by auto
next
  case (Cons c cs)
  then obtain acc1 gs1 where step: "reducer acc c = Inr acc1" "concat gs1 = concat gs @ [c]"
      "list_all2 stands_for acc1 gs1"
    using reducer_groups [of c acc gs] by auto
  obtain es gs2 where "reduce reducer cs acc1 = Inr es" "concat gs2 = concat gs1 @ cs"
      "list_all2 stands_for es gs2"
    using Cons.IH [OF _ step(3)] Cons.prems(1) by auto
  then show ?case using step by auto
qed

text \<open>
  When every text-like message has data, the aggregation returns entries, and the messages
  split into consecutive non-empty groups, one per entry and in the order of the entries:
  each entry is the first message of its group, holding that message's data and the
  combined texts of the group's other messages in their order.
\<close>

lemma combinedMessages_groups:
  assumes "list_all has_text ms"
  shows "\<exists>entries groups. combinedMessages ms = Inr entries \<and> concat groups = ms
           \<and> list_all2 stands_for entries groups"
  using reduce_groups [OF assms, of "[]" "[]"] by (simp add: combinedMessages_def)

lemma combinedMessages_hello_store:
  "combinedMessages hello_store
     = Inr [message TEXT (Some (Str (''Hello big'' @ [CHR 0x0A] @ ''World''))),
            message IMAGE_PNG (Some (Str ''QUJD''))]"
  by code_simp

text \<open>
  C9. The data of a message is optional, and the reducer calls \<^verbatim>\<open>.match\<close> on the combined
  data of every text-like message: for a text-like message without data that is
  \<^verbatim>\<open>undefined.match\<close>, and the reducer throws. No entry is returned then, also not for the
  messages before it. A message without data that is not text-like is pushed as it is,
  and the rendering skips an entry without data whatever its type.
\<close>

theorem combinedMessages_text_without_data:
  "combinedMessages [message TEXT None] = Inl TypeError
   \<and> combinedMessages [message TEXT (Some (Str ''a'')), message TEXT None] = Inl TypeError
   \<and> combinedMessages [message TABLE None] = Inr [message TABLE None]
   \<and> render_messages 1 [message TABLE None] = Inr [None]
   \<and> render_messages 1 [message TEXT None] = Inr [None]"
  by code_simp

section \<open>Aggregation: running it again\<close>

text \<open>
  On the object store the reducer allocates every entry and writes to entries only, so
  the first \<open>n\<close> objects of the store stay as they are, and the entries it returns hold
  what the reducer on values computes from the messages' contents.
\<close>

lemma push_message_ref_sim:
  assumes "c < n" "fresh_entries n h arr"
    and "push_message_ref h arr c = (r, h')"
  shows "take n h' = take n h \<and> deref h' r = push_message (map (nth h) arr) (h ! c)
     \<and> (case r of Inl e \<Rightarrow> True | Inr arr' \<Rightarrow> fresh_entries n h' arr')"
  using assms
  by (auto simp: push_message_ref_def push_message_def deref_def alloc_def Let_def fresh_entries_def
      nth_append list_all_iff less_Suc_eq split: option.splits if_splits)

lemma reducer_ref_sim:
  assumes "c < n" "fresh_entries n h arr"
    and "reducer_ref h arr c = (r, h')"
  shows "take n h' = take n h \<and> deref h' r = reducer (map (nth h) arr) (h ! c)
     \<and> (case r of Inl e \<Rightarrow> True | Inr arr' \<Rightarrow> fresh_entries n h' arr')"
proof (cases "at_last arr")
  case None
  then have "arr = []" by (auto simp: at_last_def split: if_splits)
  then show ?thesis
    using push_message_ref_sim [OF assms(1,2)] assms(3)
    by (simp add: reducer_ref_def reducer_def at_last_def)
next
  case (Some l)
  then obtain bs where arr: "arr = bs @ [l]"
    by (auto simp: at_last_def split: if_splits) (metis append_butlast_last_id)
  have l: "n \<le> l" "l < length h" "l \<notin> set bs"
    using assms(2) by (auto simp: fresh_entries_def arr)
  have upd: "map (nth (h[l := v])) arr = butlast (map (nth h) arr) @ [v]" for v
    using l by (auto simp: arr nth_list_update)
  have at: "at_last (map (nth h) arr) = Some (h ! l)"
    by (simp add: at_last_def arr)
  have fresh_upd: "fresh_entries n (h[l := v]) arr" for v
    using assms(2) by (simp add: fresh_entries_def)
  show ?thesis
    using push_message_ref_sim [OF assms(1,2)] assms(3) l(1)
    by (auto simp: reducer_ref_def reducer_def Some at deref_def upd fresh_upd
        split: option.splits if_splits)
qed

lemma reduce_ref_sim:
  assumes "list_all (\<lambda>c. c < n) ms" "fresh_entries n h arr"
    and "reduce_ref h arr ms = (r, h')"
  shows "take n h' = take n h \<and> deref h' r = reduce reducer (map (nth h) ms) (map (nth h) arr)"
  using assms
proof (induction ms arbitrary: h arr)
  case Nil
  then show ?case by (auto simp: deref_def)
next
  case (Cons c cs)
  obtain r1 h1 where step: "reducer_ref h arr c = (r1, h1)" by (cases "reducer_ref h arr c")
  have c: "c < n" and cs: "list_all (\<lambda>c. c < n) cs" using Cons.prems(1) by simp_all
  note sim = reducer_ref_sim [OF c Cons.prems(2) step]
  show ?case
  proof (cases r1)
    case (Inl e)
    then have "reducer (map (nth h) arr) (h ! c) = Inl e" using sim by (simp add: deref_def)
    then show ?thesis using sim step Inl Cons.prems(3) by simp
  next
    case (Inr arr1)
    then have fresh1: "fresh_entries n h1 arr1" using sim by simp
    have rest: "reduce_ref h1 arr1 cs = (r, h')" using Cons.prems(3) step Inr by simp
    have same: "map (nth h1) cs = map (nth h) cs"
    proof -
      have "\<forall>a \<in> set cs. h1 ! a = h ! a"
        using cs sim by (metis list_all_iff nth_take)
      then show ?thesis by simp
    qed
    have red: "reducer (map (nth h) arr) (h ! c) = Inr (map (nth h1) arr1)"
      using sim Inr by (simp add: deref_def)
    have "take n h' = take n h1" "deref h' r = reduce reducer (map (nth h1) cs) (map (nth h1) arr1)"
      using Cons.IH [OF cs fresh1 rest] by simp_all
    then show ?thesis
      using sim red same by simp
  qed
qed



text \<open>
  C6. For messages that are objects of the store (a message may occur more than once): the
  entries of a run are those the reducer on values computes from the messages' contents,
  so they depend on nothing else; the run leaves every message as it was; and a second run
  on the store the first run left behind returns entries (or the error) equal in content
  to those of the first.
\<close>

theorem combinedMessages_ref_rerun:
  assumes "list_all (\<lambda>c. c < length h) ms"
  shows "deref (snd (combinedMessages_ref h ms)) (fst (combinedMessages_ref h ms))
           = combinedMessages (map (nth h) ms)
       \<and> map (nth (snd (combinedMessages_ref h ms))) ms = map (nth h) ms
       \<and> deref (snd (combinedMessages_ref (snd (combinedMessages_ref h ms)) ms))
               (fst (combinedMessages_ref (snd (combinedMessages_ref h ms)) ms))
           = deref (snd (combinedMessages_ref h ms)) (fst (combinedMessages_ref h ms))"
proof -
  obtain r1 h1 where run1: "combinedMessages_ref h ms = (r1, h1)"
    by (cases "combinedMessages_ref h ms")
  have fresh: "fresh_entries (length h) h []" by (simp add: fresh_entries_def)
  have sim1: "take (length h) h1 = h" "deref h1 r1 = combinedMessages (map (nth h) ms)"
    using reduce_ref_sim [OF assms fresh, of r1 h1] run1
    by (simp_all add: combinedMessages_ref_def combinedMessages_def)
  have len: "length h \<le> length h1"
    using arg_cong [OF sim1(1), of length] by simp
  have same: "map (nth h1) ms = map (nth h) ms"
  proof -
    have "\<forall>a \<in> set ms. h1 ! a = h ! a"
      using assms sim1(1) by (metis list_all_iff nth_take)
    then show ?thesis by simp
  qed
  obtain r2 h2 where run2: "combinedMessages_ref h1 ms = (r2, h2)"
    by (cases "combinedMessages_ref h1 ms")
  have assms1: "list_all (\<lambda>c. c < length h1) ms"
    using assms len by (auto simp: list_all_iff)
  have fresh1: "fresh_entries (length h1) h1 []" by (simp add: fresh_entries_def)
  have sim2: "deref h2 r2 = combinedMessages (map (nth h1) ms)"
    using reduce_ref_sim [OF assms1 fresh1, of r2 h2] run2
    by (simp_all add: combinedMessages_ref_def combinedMessages_def)
  show ?thesis
    using run1 run2 sim1 sim2 same by simp
qed

theorem combinedMessages_ref_rerun_witness:
  "list_all (\<lambda>c. c < length hello_store) [0, 1, 1, 2]
   \<and> deref (snd (combinedMessages_ref hello_store [0, 1, 1, 2]))
        (fst (combinedMessages_ref hello_store [0, 1, 1, 2]))
       = combinedMessages (map (nth hello_store) [0, 1, 1, 2])
   \<and> map (nth (snd (combinedMessages_ref hello_store [0, 1, 1, 2]))) [0, 1, 1, 2]
       = map (nth hello_store) [0, 1, 1, 2]
   \<and> deref (snd (combinedMessages_ref (snd (combinedMessages_ref hello_store [0, 1, 1, 2])) [0, 1, 1, 2]))
        (fst (combinedMessages_ref (snd (combinedMessages_ref hello_store [0, 1, 1, 2])) [0, 1, 1, 2]))
       = deref (snd (combinedMessages_ref hello_store [0, 1, 1, 2]))
           (fst (combinedMessages_ref hello_store [0, 1, 1, 2]))
   \<and> combinedMessages (map (nth hello_store) [0, 1, 1, 2])
       = Inr [message TEXT (Some (Str (''Hello big'' @ [CHR 0x0A] @ ''Worldbig'' @ [CHR 0x0A] @ ''World''))),
              message IMAGE_PNG (Some (Str ''QUJD''))]"
proof -
  have h: "list_all (\<lambda>c. c < length hello_store) [0, 1, 1, 2]"
    by (simp add: hello_store_def)
  have v: "combinedMessages (map (nth hello_store) [0, 1, 1, 2])
       = Inr [message TEXT (Some (Str (''Hello big'' @ [CHR 0x0A] @ ''Worldbig'' @ [CHR 0x0A] @ ''World''))),
              message IMAGE_PNG (Some (Str ''QUJD''))]"
    by code_simp
  show ?thesis
    using h combinedMessages_ref_rerun [OF h] v by blast
qed

section \<open>Rendering: the table path\<close>

lemma createDataTableElement_rows:
  "createDataTableElement arg = Inr (Some (DataTable c i r)) \<Longrightarrow> length_ge_1 r"
  by (auto simp: createDataTableElement_def split: option.splits json.splits if_splits)

lemma createDataTableElement_list:
  "get ''rows'' v = Some (JArray rs) \<Longrightarrow>
   createDataTableElement (Some v) =
     Inr (if rs = [] then None else Some (DataTable (get ''columns'' v) (get ''index'' v) (JArray rs)))"
  by (cases v; cases rs) (auto simp: createDataTableElement_def length_ge_1_def get_def)

lemma displayElement_DataTable:
  assumes "displayElement n t i l d j = Inr (Some (DataTable c ix r))"
  shows "length_ge_1 r"
  using assms
  by (auto simp: displayElement_def Let_def dest: createDataTableElement_rows
      split: if_splits sum.splits json.splits)

text \<open>
  C10. A data table that is rendered for a fragment with a list of rows has at least one
  row. On both table paths (a marked fragment whose parsed object has the type table, and
  an unmarked fragment of a table entry that parses) a table whose rows are a list is
  rendered exactly when the list is not empty, with that list as its rows; with no rows
  nothing is rendered for the fragment.
\<close>

theorem displayElement_table_rows:
  "(displayElement n t i l d j = Inr (Some (DataTable c ix (JArray rs))) \<longrightarrow> rs \<noteq> [])
   \<and> (match internalOutputRegex d
        \<and> JSON_parse (replace internalOutputRegex d) = Inr parsed
        \<and> get ''type'' parsed = Some (JString (units ''table''))
        \<and> get ''data'' parsed = Some table
        \<and> get ''rows'' table = Some (JArray rs) \<longrightarrow>
      displayElement n t i l d j =
        Inr (if rs = [] then None
             else Some (DataTable (get ''columns'' table) (get ''index'' table) (JArray rs))))
   \<and> (\<not> match internalOutputRegex d \<and> t = TABLE
        \<and> JSON_parse d = Inr table
        \<and> get ''rows'' table = Some (JArray rs) \<longrightarrow>
      displayElement n t i l d j =
        Inr (if rs = [] then None
             else Some (DataTable (get ''columns'' table) (get ''index'' table) (JArray rs))))"
proof (intro conjI impI)
  assume "displayElement n t i l d j = Inr (Some (DataTable c ix (JArray rs)))"
  from displayElement_DataTable [OF this] show "rs \<noteq> []"
    by (auto simp: length_ge_1_def)
next
  assume h: "match internalOutputRegex d
        \<and> JSON_parse (replace internalOutputRegex d) = Inr parsed
        \<and> get ''type'' parsed = Some (JString (units ''table''))
        \<and> get ''data'' parsed = Some table
        \<and> get ''rows'' table = Some (JArray rs)"
  then have "parsed \<noteq> JNull" by (auto simp: get_def)
  then show "displayElement n t i l d j =
        Inr (if rs = [] then None
             else Some (DataTable (get ''columns'' table) (get ''index'' table) (JArray rs)))"
    using h createDataTableElement_list [of table rs]
    by (cases parsed) (simp_all add: displayElement_def isJsonString_def)
next
  assume h: "\<not> match internalOutputRegex d \<and> t = TABLE
        \<and> JSON_parse d = Inr table
        \<and> get ''rows'' table = Some (JArray rs)"
  then show "displayElement n t i l d j =
        Inr (if rs = [] then None
             else Some (DataTable (get ''columns'' table) (get ''index'' table) (JArray rs)))"
    using createDataTableElement_list [of table rs]
    by (simp add: displayElement_def isJsonString_def)
qed

theorem displayElement_table_rows_witness:
  "(match internalOutputRegex no_rows_payload
      \<and> JSON_parse (replace internalOutputRegex no_rows_payload)
          = Inr (JObject [(units ''data'', JObject [(units ''rows'', JArray [])]),
                          (units ''type'', JString (units ''table''))])
      \<and> get ''type'' (JObject [(units ''data'', JObject [(units ''rows'', JArray [])]),
                          (units ''type'', JString (units ''table''))])
          = Some (JString (units ''table''))
      \<and> get ''data'' (JObject [(units ''data'', JObject [(units ''rows'', JArray [])]),
                          (units ''type'', JString (units ''table''))])
          = Some (JObject [(units ''rows'', JArray [])])
      \<and> get ''rows'' (JObject [(units ''rows'', JArray [])]) = Some (JArray []))
   \<and> displayElement 1 TEXT 0 1 no_rows_payload 0 = Inr None
   \<and> (\<not> match internalOutputRegex table_json \<and> TABLE = TABLE
      \<and> JSON_parse table_json
          = Inr (JObject [(units ''columns'', JArray [JString (units ''a'')]),
                          (units ''rows'', JArray [JArray [JNumber ''1'']])])
      \<and> get ''rows'' (JObject [(units ''columns'', JArray [JString (units ''a'')]),
                                (units ''rows'', JArray [JArray [JNumber ''1'']])])
          = Some (JArray [JArray [JNumber ''1'']]))
   \<and> displayElement 1 TABLE 0 1 table_json 0
       = Inr (Some (DataTable (Some (JArray [JString (units ''a'')])) None
                      (JArray [JArray [JNumber ''1'']])))
   \<and> [JArray [JNumber ''1'']] \<noteq> []"
proof -
  let ?parsed = "JObject [(units ''data'', JObject [(units ''rows'', JArray [])]),
                          (units ''type'', JString (units ''table''))]"
  let ?table = "JObject [(units ''columns'', JArray [JString (units ''a'')]),
                         (units ''rows'', JArray [JArray [JNumber ''1'']])]"
  have h: "match internalOutputRegex no_rows_payload
      \<and> JSON_parse (replace internalOutputRegex no_rows_payload) = Inr ?parsed
      \<and> get ''type'' ?parsed = Some (JString (units ''table''))
      \<and> get ''data'' ?parsed = Some (JObject [(units ''rows'', JArray [])])
      \<and> get ''rows'' (JObject [(units ''rows'', JArray [])]) = Some (JArray [])"
    by code_simp
  have g: "\<not> match internalOutputRegex table_json \<and> TABLE = TABLE
      \<and> JSON_parse table_json = Inr ?table
      \<and> get ''rows'' ?table = Some (JArray [JArray [JNumber ''1'']])"
    by code_simp
  have c: "get ''columns'' ?table = Some (JArray [JString (units ''a'')])"
      "get ''index'' ?table = None"
    by code_simp+
  have r1: "displayElement 1 TEXT 0 1 no_rows_payload 0 = Inr None"
    using displayElement_table_rows [of 1 TEXT 0 1 no_rows_payload 0 c ix "[]" ?parsed
        "JObject [(units ''rows'', JArray [])]"] h
    by simp
  have r2: "displayElement 1 TABLE 0 1 table_json 0
       = Inr (Some (DataTable (Some (JArray [JString (units ''a'')])) None
                      (JArray [JArray [JNumber ''1'']])))"
    using displayElement_table_rows [of 1 TABLE 0 1 table_json 0 c ix "[JArray [JNumber ''1'']]"
        parsed ?table] g c
    by simp
  have r3: "[JArray [JNumber ''1'']] \<noteq> []"
    using displayElement_table_rows [of 1 TABLE 0 1 table_json 0
        "Some (JArray [JString (units ''a'')])" None "[JArray [JNumber ''1'']]"] r2
    by blast
  show ?thesis using h g r1 r2 r3 by blast
qed

section \<open>Rendering: the unwrap law\<close>

text \<open>
  C3, as the claim states it. The data of the claim's payload is an array. The component
  hands it to \<^verbatim>\<open>createDataTableElement\<close>, which reads \<^verbatim>\<open>rows\<close> from it: an array has no such
  property, and \<^verbatim>\<open>rows.length\<close> throws. The text message is aggregated as it is and its
  rendering ends with the TypeError.
\<close>

theorem unwrap_array_data_counterexample:
  "combinedMessages [message TEXT (Some (Str table_payload))]
     = Inr [message TEXT (Some (Str table_payload))]
   \<and> render_messages 1 [message TEXT (Some (Str table_payload))] = Inl TypeError"
  by code_simp

text \<open>
  C3, amended. With the rows as the member \<^verbatim>\<open>rows\<close> of the data,
  \<^verbatim>\<open>[__internal_output__]{"data":{"rows":[["a","b"]]},"type":"table"}\<close>, the text message is
  rendered as exactly one data table whose rows are \<^verbatim>\<open>[["a","b"]]\<close>. For the claim's payload
  with the type text nothing is rendered for the fragment, and nothing is thrown.
\<close>

theorem unwrap_table_rows:
  "combinedMessages [message TEXT (Some (Str rows_payload))]
     = Inr [message TEXT (Some (Str rows_payload))]
   \<and> render_messages 1 [message TEXT (Some (Str rows_payload))]
     = Inr [Some [Div 0 0 (Some (DataTable None None
              (JArray [JArray [JString (units ''a''), JString (units ''b'')]])))]]
   \<and> combinedMessages [message TEXT (Some (Str text_payload))]
     = Inr [message TEXT (Some (Str text_payload))]
   \<and> render_messages 1 [message TEXT (Some (Str text_payload))] = Inr [Some [Div 0 0 None]]"
  by code_simp

section \<open>Rendering: the position flags\<close>

text \<open>
  C4. The component compares the index of an entry with the number of messages, not with
  the number of entries. The two text messages of the scenario are one entry with the
  index 0, the number of messages is 2, and the output row of "Hello World" has
  \<^verbatim>\<open>first\<close> set and \<^verbatim>\<open>last\<close> not set.
\<close>

theorem CodeOutput_hello_world_flags:
  "CodeOutput (props_of ''updated'' False 1
      [message TEXT (Some (Str ''Hello '')), message TEXT (Some (Str ''World''))])
   = Inr \<lparr>finished = True,
          children = [Some [Div 0 0 (Some (OutputRow True False ''Hello World''))]]\<rparr>"
  by code_simp

section \<open>Rendering: the finished flag\<close>

lemma CodeOutput_finished:
  assumes "CodeOutput p = Inr out"
  shows "finished out =
     (status (block p) = EXECUTED
      \<or> (\<not> isInProgress p \<and> runCount p = 0 \<and> 1 \<le> length (messages p))
      \<or> (\<not> isInProgress p \<and> 1 \<le> runCount p \<and> runStartTime p \<le> runEndTime p))"
  using assms
  by (auto simp: CodeOutput_def executedAndIdle_def Let_def split: list.splits sum.splits)

text \<open>
  C5. When the component returns, its flag is the disjunction of the claim
  (\<open>CodeOutput_finished\<close>). In the scenario of the claim (status executed, not in progress,
  no run, no messages) it does not return: the type of the first message is read before
  the flag is computed, and reading it throws.
\<close>

theorem CodeOutput_executed_without_messages:
  "CodeOutput (props_of EXECUTED False 0 []) = Inl TypeError"
  by code_simp

section \<open>Rendering: no messages\<close>

text \<open>
  C8. Aggregating and rendering no messages gives no entries and no elements, but the
  component reads the type of the first message before either, and throws on the empty
  array whatever the other properties are.
\<close>

theorem CodeOutput_no_messages:
  "CodeOutput (p\<lparr>messages := []\<rparr>) = Inl TypeError
   \<and> combinedMessages [] = Inr []
   \<and> render_messages 0 [] = Inr []"
  by (simp add: CodeOutput_def combinedMessages_def render_messages_def)

section \<open>Rendering: empty fragments\<close>

lemma sequence_length: "sequence xs = Inr ys \<Longrightarrow> length ys = length xs"
  by (induction xs arbitrary: ys) (auto split: sum.splits)

lemma render_message_count:
  assumes "render_message n e idx = Inr r"
  shows "case r of None \<Rightarrow> fragments e = [] | Some divs \<Rightarrow> length divs = length (fragments e)"
proof (cases "data e")
  case None
  then show ?thesis using assms by (auto simp: render_message_def fragments_def)
next
  case (Some p)
  show ?thesis
  proof (cases "p = Str [] \<or> p = Arr []")
    case True
    then show ?thesis using assms Some by (auto simp: render_message_def fragments_def)
  next
    case False
    then have frag: "filter (\<lambda>d. d \<noteq> []) (case p of Arr xs \<Rightarrow> xs | Str x \<Rightarrow> [x]) = fragments e"
      using Some by (cases p) (auto simp: fragments_def)
    show ?thesis
      using assms Some False frag
      by (auto simp: render_message_def Let_def split: sum.splits dest!: sequence_length)
  qed
qed

lemma displayElement_plain:
  assumes "t \<noteq> TABLE" "\<not> match internalOutputRegex d"
  shows "displayElement n t i l d j =
    Inr (Some (if t = IMAGE_PNG then Img i d
               else OutputRow (i = 0 \<and> j = 0) (int i = int n - 1 \<and> int j = int l - 1) d))"
  using assms by (cases t) (auto simp: displayElement_def DATA_TYPE_TEXTLIKE_def)

lemma sequence_plain:
  assumes "t \<noteq> TABLE" "list_all (\<lambda>d. \<not> match internalOutputRegex d) ds"
  shows "sequence (map (\<lambda>(idxInner, d).
            case displayElement n t idx l d idxInner of
              Inl e \<Rightarrow> Inl e
            | Inr el \<Rightarrow> Inr (Div idx idxInner el)) (enumerate k ds))
      = Inr (map (\<lambda>(j, d). Div idx j (Some (if t = IMAGE_PNG then Img idx d
               else OutputRow (idx = 0 \<and> j = 0) (int idx = int n - 1 \<and> int j = int l - 1) d)))
            (enumerate k ds))"
  using assms(2)
  by (induction ds arbitrary: k) (simp_all add: displayElement_plain [OF assms(1)])

lemma render_message_plain:
  assumes "type e \<noteq> TABLE" "list_all (\<lambda>d. \<not> match internalOutputRegex d) (fragments e)"
    and "data e = Some p" "p \<noteq> Str []" "p \<noteq> Arr []"
  shows "render_message n e idx =
     Inr (Some (map (\<lambda>(j, d). Div idx j (Some (instruction n e idx j d))) (enumerate 0 (fragments e))))"
proof -
  have frag: "filter (\<lambda>d. d \<noteq> []) (case p of Arr xs \<Rightarrow> xs | Str x \<Rightarrow> [x]) = fragments e"
    using assms(3) by (cases p) (auto simp: fragments_def)
  show ?thesis
    using assms(3,4,5)
    by (simp add: render_message_def Let_def frag sequence_plain [OF assms(1,2)] instruction_def)
qed

lemma sequence_results: "sequence xs = Inr ys \<Longrightarrow> list_all2 (\<lambda>x y. x = Inr y) xs ys"
  by (induction xs arbitrary: ys) (auto split: sum.splits)

lemma sequence_error: "sequence xs = Inl err \<Longrightarrow> Inl err \<in> set xs"
  by (induction xs) (auto split: sum.splits)

lemma list_all2_swap: "list_all2 P xs ys \<Longrightarrow> list_all2 (\<lambda>y x. P x y) ys xs"
  by (induction rule: list_all2_induct) auto

lemma fragments_of_data:
  "data e = Some p \<Longrightarrow>
   filter (\<lambda>d. d \<noteq> []) (case p of Arr xs \<Rightarrow> xs | Str x \<Rightarrow> [x]) = fragments e"
  by (cases p) (auto simp: fragments_def)

lemma render_message_unfold:
  assumes "data e = Some p" "p \<noteq> Str []" "p \<noteq> Arr []"
  shows "render_message n e idx =
    (case sequence (map (\<lambda>(idxInner, d).
             case displayElement n (type e) idx (length (fragments e)) d idxInner of
               Inl e \<Rightarrow> Inl e
             | Inr el \<Rightarrow> Inr (Div idx idxInner el))
           (enumerate 0 (fragments e))) of
       Inl e \<Rightarrow> Inl e
     | Inr divs \<Rightarrow> Inr (Some divs))"
  using assms by (simp add: render_message_def Let_def fragments_of_data)

lemma render_message_defined:
  assumes "render_message n e idx = Inr (Some divs) \<or> render_message n e idx = Inl err"
  shows "\<exists>p. data e = Some p \<and> p \<noteq> Str [] \<and> p \<noteq> Arr []"
  using assms by (cases "data e") (auto simp: render_message_def split: if_splits)

lemma render_message_rows:
  assumes "render_message n e idx = Inr (Some divs)"
  shows "list_all2 (\<lambda>dv (j, d). \<exists>el. dv = Div idx j el
            \<and> displayElement n (type e) idx (length (fragments e)) d j = Inr el
            \<and> (type e \<noteq> TABLE \<and> \<not> match internalOutputRegex d \<longrightarrow>
                 el = Some (instruction n e idx j d)))
          divs (enumerate 0 (fragments e))"
proof -
  obtain p where p: "data e = Some p" "p \<noteq> Str []" "p \<noteq> Arr []"
    using render_message_defined [of n e idx divs] assms by blast
  let ?f = "\<lambda>(idxInner, d).
             case displayElement n (type e) idx (length (fragments e)) d idxInner of
               Inl e \<Rightarrow> Inl e
             | Inr el \<Rightarrow> Inr (Div idx idxInner el)"
  have "sequence (map ?f (enumerate 0 (fragments e))) = Inr divs"
    using assms render_message_unfold [OF p, of n idx] by (auto split: sum.splits)
  then have "list_all2 (\<lambda>x dv. ?f x = Inr dv) (enumerate 0 (fragments e)) divs"
    using sequence_results [of "map ?f (enumerate 0 (fragments e))" divs]
    by (simp add: list_all2_map1)
  then have "list_all2 (\<lambda>dv x. ?f x = Inr dv) divs (enumerate 0 (fragments e))"
    by (rule list_all2_swap)
  then show ?thesis
  proof (rule list_all2_mono)
    fix dv x
    assume h: "?f x = Inr dv"
    obtain j d where x: "x = (j, d)" by (cases x)
    obtain el where el: "displayElement n (type e) idx (length (fragments e)) d j = Inr el"
        "dv = Div idx j el"
      using h x by (auto split: sum.splits)
    have "type e \<noteq> TABLE \<and> \<not> match internalOutputRegex d \<longrightarrow> el = Some (instruction n e idx j d)"
      using el(1) displayElement_plain [of "type e" d n idx "length (fragments e)" j]
      by (auto simp: instruction_def)
    then show "case x of (j, d) \<Rightarrow> \<exists>el. dv = Div idx j el
            \<and> displayElement n (type e) idx (length (fragments e)) d j = Inr el
            \<and> (type e \<noteq> TABLE \<and> \<not> match internalOutputRegex d \<longrightarrow>
                 el = Some (instruction n e idx j d))"
      using x el by simp
  qed
qed

lemma render_message_error:
  assumes "render_message n e idx = Inl err"
  shows "\<exists>(j, d) \<in> set (enumerate 0 (fragments e)).
          displayElement n (type e) idx (length (fragments e)) d j = Inl err
          \<and> (match internalOutputRegex d \<or> type e = TABLE)"
proof -
  obtain p where p: "data e = Some p" "p \<noteq> Str []" "p \<noteq> Arr []"
    using render_message_defined [of n e idx "[]" err] assms by blast
  let ?f = "\<lambda>(idxInner, d).
             case displayElement n (type e) idx (length (fragments e)) d idxInner of
               Inl e \<Rightarrow> Inl e
             | Inr el \<Rightarrow> Inr (Div idx idxInner el)"
  have "sequence (map ?f (enumerate 0 (fragments e))) = Inl err"
    using assms render_message_unfold [OF p, of n idx] by (auto split: sum.splits)
  then have "Inl err \<in> set (map ?f (enumerate 0 (fragments e)))"
    by (rule sequence_error)
  then obtain j d where jd: "(j, d) \<in> set (enumerate 0 (fragments e))" "?f (j, d) = Inl err"
    by auto
  then have err: "displayElement n (type e) idx (length (fragments e)) d j = Inl err"
    by (auto split: sum.splits)
  have "match internalOutputRegex d \<or> type e = TABLE"
    using err displayElement_plain [of "type e" d n idx "length (fragments e)" j] by auto
  then show ?thesis using jd(1) err by blast
qed

text \<open>
  C7, as the claim states it. The entry below has the data
  \<^verbatim>\<open>["", "[__internal_output__]x", ""]\<close>: one non-empty fragment, which carries the marker
  and no JSON text. By the component's rule for marked fragments nothing is rendered for
  it, so a non-empty fragment has no render instruction.
\<close>

theorem render_message_marked_fragment_counterexample:
  "fragments (message TEXT (Some (Arr [[], marked_text, []]))) = [marked_text]
   \<and> marked_text \<noteq> []
   \<and> render_message 1 (message TEXT (Some (Arr [[], marked_text, []]))) 0
     = Inr (Some [Div 0 0 None])"
  by code_simp

text \<open>
  C7, amended. An entry without data, with the empty string or with the empty array is
  rendered as nothing. Any other entry is rendered fragment by fragment, the empty strings
  left out: when no fragment throws, there is one \<^verbatim>\<open>div\<close> per non-empty fragment, in order,
  holding what that fragment is rendered as, which is at most one element; when the
  rendering throws, it is the error of one of the fragments, one that carries the marker
  or belongs to a table entry. A fragment without the marker in an entry that is not a
  table never throws and is rendered as exactly one element that holds it (an output row,
  or an image for an image entry). So an entry that is not a table and has no marked
  fragment is rendered as exactly one element per non-empty fragment; with the data
  \<^verbatim>\<open>["", "x", ""]\<close> that is exactly one element, for "x".
\<close>

theorem render_message_fragments:
  "(data e = None \<or> data e = Some (Str []) \<or> data e = Some (Arr []) \<longrightarrow>
      render_message n e idx = Inr None)
   \<and> (render_message n e idx = Inr None \<longrightarrow>
        (data e = None \<or> data e = Some (Str []) \<or> data e = Some (Arr [])) \<and> fragments e = [])
   \<and> (render_message n e idx = Inr (Some divs) \<longrightarrow>
        length divs = length (fragments e)
        \<and> list_all2 (\<lambda>dv (j, d). \<exists>el. dv = Div idx j el
              \<and> displayElement n (type e) idx (length (fragments e)) d j = Inr el
              \<and> (type e \<noteq> TABLE \<and> \<not> match internalOutputRegex d \<longrightarrow>
                   el = Some (instruction n e idx j d)))
            divs (enumerate 0 (fragments e)))
   \<and> (render_message n e idx = Inl err \<longrightarrow>
        (\<exists>(j, d) \<in> set (enumerate 0 (fragments e)).
            displayElement n (type e) idx (length (fragments e)) d j = Inl err
            \<and> (match internalOutputRegex d \<or> type e = TABLE)))
   \<and> (type e \<noteq> TABLE \<and> \<not> match internalOutputRegex x \<longrightarrow>
        displayElement n (type e) idx (length (fragments e)) x k
          = Inr (Some (instruction n e idx k x)))
   \<and> (type e \<noteq> TABLE \<and> list_all (\<lambda>d. \<not> match internalOutputRegex d) (fragments e)
        \<and> data e = Some p \<and> p \<noteq> Str [] \<and> p \<noteq> Arr [] \<longrightarrow>
      render_message n e idx =
        Inr (Some (map (\<lambda>(j, d). Div idx j (Some (instruction n e idx j d)))
                    (enumerate 0 (fragments e)))))
   \<and> (type e \<noteq> TABLE \<and> data e = Some (Arr [[], ''x'', []]) \<longrightarrow>
      render_message n e idx = Inr (Some [Div idx 0 (Some (instruction n e idx 0 ''x''))]))"
proof (intro conjI impI)
  assume "data e = None \<or> data e = Some (Str []) \<or> data e = Some (Arr [])"
  then show "render_message n e idx = Inr None"
    by (auto simp: render_message_def)
next
  assume "render_message n e idx = Inr None"
  then show "data e = None \<or> data e = Some (Str []) \<or> data e = Some (Arr [])"
    by (cases "data e") (auto simp: render_message_def Let_def split: if_splits sum.splits)
next
  assume "render_message n e idx = Inr None"
  from render_message_count [OF this] show "fragments e = []" by simp
next
  assume "render_message n e idx = Inr (Some divs)"
  from render_message_count [OF this] show "length divs = length (fragments e)" by simp
next
  assume "render_message n e idx = Inr (Some divs)"
  then show "list_all2 (\<lambda>dv (j, d). \<exists>el. dv = Div idx j el
              \<and> displayElement n (type e) idx (length (fragments e)) d j = Inr el
              \<and> (type e \<noteq> TABLE \<and> \<not> match internalOutputRegex d \<longrightarrow>
                   el = Some (instruction n e idx j d)))
            divs (enumerate 0 (fragments e))"
    by (rule render_message_rows)
next
  assume "render_message n e idx = Inl err"
  then show "\<exists>(j, d) \<in> set (enumerate 0 (fragments e)).
            displayElement n (type e) idx (length (fragments e)) d j = Inl err
            \<and> (match internalOutputRegex d \<or> type e = TABLE)"
    by (rule render_message_error)
next
  assume "type e \<noteq> TABLE \<and> \<not> match internalOutputRegex x"
  then show "displayElement n (type e) idx (length (fragments e)) x k
          = Inr (Some (instruction n e idx k x))"
    using displayElement_plain [of "type e" x n idx "length (fragments e)" k]
    by (simp add: instruction_def)
next
  assume "type e \<noteq> TABLE \<and> list_all (\<lambda>d. \<not> match internalOutputRegex d) (fragments e)
        \<and> data e = Some p \<and> p \<noteq> Str [] \<and> p \<noteq> Arr []"
  then show "render_message n e idx =
        Inr (Some (map (\<lambda>(j, d). Div idx j (Some (instruction n e idx j d)))
                    (enumerate 0 (fragments e))))"
    using render_message_plain [of e p n idx] by simp
next
  assume h: "type e \<noteq> TABLE \<and> data e = Some (Arr [[], ''x'', []])"
  then have f: "fragments e = [''x'']" by (simp add: fragments_def)
  have "\<not> match internalOutputRegex ''x''"
    by (simp add: internalOutputRegex_def starts_with_def)
  then show "render_message n e idx = Inr (Some [Div idx 0 (Some (instruction n e idx 0 ''x''))])"
    using h f render_message_plain [of e "Arr [[], ''x'', []]" n idx] by simp
qed

theorem render_message_fragments_witness:
  "(type (message IMAGE_PNG (Some (Arr [[], ''x'', []]))) \<noteq> TABLE
     \<and> data (message IMAGE_PNG (Some (Arr [[], ''x'', []]))) = Some (Arr [[], ''x'', []]))
   \<and> render_message 3 (message IMAGE_PNG (Some (Arr [[], ''x'', []]))) 2
       = Inr (Some [Div 2 0 (Some (instruction 3 (message IMAGE_PNG (Some (Arr [[], ''x'', []]))) 2 0 ''x''))])
   \<and> instruction 3 (message IMAGE_PNG (Some (Arr [[], ''x'', []]))) 2 0 ''x'' = Img 2 ''x''
   \<and> data (message TEXT None) = None
   \<and> render_message 3 (message TEXT None) 2 = Inr None
   \<and> fragments (message TEXT None) = []
   \<and> (type (message TEXT (Some (Str ''Hello World''))) \<noteq> TABLE
     \<and> list_all (\<lambda>d. \<not> match internalOutputRegex d)
          (fragments (message TEXT (Some (Str ''Hello World''))))
     \<and> data (message TEXT (Some (Str ''Hello World''))) = Some (Str ''Hello World'')
     \<and> Str ''Hello World'' \<noteq> Str [] \<and> Str ''Hello World'' \<noteq> Arr [])
   \<and> render_message 1 (message TEXT (Some (Str ''Hello World''))) 0
       = Inr (Some (map (\<lambda>(j, d). Div 0 j (Some (instruction 1 (message TEXT (Some (Str ''Hello World''))) 0 j d)))
                    (enumerate 0 (fragments (message TEXT (Some (Str ''Hello World'')))))))
   \<and> render_message 1 (message TEXT (Some (Str ''Hello World''))) 0
       = Inr (Some [Div 0 0 (Some (OutputRow True True ''Hello World''))])
   \<and> length [Div 0 0 (Some (OutputRow True True ''Hello World''))]
       = length (fragments (message TEXT (Some (Str ''Hello World''))))
   \<and> render_message 3 (message IMAGE_PNG (Some (Arr [''x'', marked_text]))) 2
       = Inr (Some [Div 2 0 (Some (Img 2 ''x'')), Div 2 1 None])
   \<and> list_all2 (\<lambda>dv (j, d). \<exists>el. dv = Div 2 j el
          \<and> displayElement 3 (type (message IMAGE_PNG (Some (Arr [''x'', marked_text])))) 2
               (length (fragments (message IMAGE_PNG (Some (Arr [''x'', marked_text]))))) d j = Inr el
          \<and> (type (message IMAGE_PNG (Some (Arr [''x'', marked_text]))) \<noteq> TABLE
               \<and> \<not> match internalOutputRegex d \<longrightarrow>
               el = Some (instruction 3 (message IMAGE_PNG (Some (Arr [''x'', marked_text]))) 2 j d)))
        [Div 2 0 (Some (Img 2 ''x'')), Div 2 1 None]
        (enumerate 0 (fragments (message IMAGE_PNG (Some (Arr [''x'', marked_text])))))
   \<and> render_message 3 (message IMAGE_PNG (Some (Arr [''x'', null_payload]))) 2 = Inl TypeError
   \<and> (\<exists>(j, d) \<in> set (enumerate 0 (fragments (message IMAGE_PNG (Some (Arr [''x'', null_payload]))))).
          displayElement 3 (type (message IMAGE_PNG (Some (Arr [''x'', null_payload])))) 2
            (length (fragments (message IMAGE_PNG (Some (Arr [''x'', null_payload]))))) d j = Inl TypeError
          \<and> (match internalOutputRegex d
               \<or> type (message IMAGE_PNG (Some (Arr [''x'', null_payload]))) = TABLE))
   \<and> (type (message TEXT (Some (Str ''Hello World''))) \<noteq> TABLE \<and> \<not> match internalOutputRegex ''x'')
   \<and> displayElement 1 (type (message TEXT (Some (Str ''Hello World'')))) 0
        (length (fragments (message TEXT (Some (Str ''Hello World''))))) ''x'' 5
       = Inr (Some (instruction 1 (message TEXT (Some (Str ''Hello World''))) 0 5 ''x''))"
proof -
  let ?img = "message IMAGE_PNG (Some (Arr [[], ''x'', []]))"
  let ?txt = "message TEXT (Some (Str ''Hello World''))"
  let ?mix = "message IMAGE_PNG (Some (Arr [''x'', marked_text]))"
  let ?bad = "message IMAGE_PNG (Some (Arr [''x'', null_payload]))"
  have h: "type ?img \<noteq> TABLE \<and> data ?img = Some (Arr [[], ''x'', []])"
    by (simp add: message_def)
  have i: "instruction 3 ?img 2 0 ''x'' = Img 2 ''x''"
    by (simp add: instruction_def message_def)
  have d: "data (message TEXT None) = None"
    by (simp add: message_def)
  have t: "type ?txt \<noteq> TABLE
     \<and> list_all (\<lambda>d. \<not> match internalOutputRegex d) (fragments ?txt)
     \<and> data ?txt = Some (Str ''Hello World'')
     \<and> Str ''Hello World'' \<noteq> Str [] \<and> Str ''Hello World'' \<noteq> Arr []"
    by code_simp
  have v: "render_message 1 ?txt 0 = Inr (Some [Div 0 0 (Some (OutputRow True True ''Hello World''))])"
    by code_simp
  have m: "render_message 3 ?mix 2 = Inr (Some [Div 2 0 (Some (Img 2 ''x'')), Div 2 1 None])"
    by code_simp
  have b: "render_message 3 ?bad 2 = Inl TypeError"
    by code_simp
  have u: "type ?txt \<noteq> TABLE \<and> \<not> match internalOutputRegex ''x''"
    by code_simp
  have r1: "render_message 3 ?img 2 = Inr (Some [Div 2 0 (Some (instruction 3 ?img 2 0 ''x''))])"
    using render_message_fragments [of ?img 3 2] h by blast
  have r2: "render_message 3 (message TEXT None) 2 = Inr None"
    using render_message_fragments [of "message TEXT None" 3 2] d by blast
  have r3: "fragments (message TEXT None) = []"
    using render_message_fragments [of "message TEXT None" 3 2] r2 by blast
  have r4: "render_message 1 ?txt 0
       = Inr (Some (map (\<lambda>(j, d). Div 0 j (Some (instruction 1 ?txt 0 j d)))
                    (enumerate 0 (fragments ?txt))))"
    using render_message_fragments [of ?txt 1 0 divs err x k "Str ''Hello World''"] t by blast
  have r5: "length [Div 0 0 (Some (OutputRow True True ''Hello World''))] = length (fragments ?txt)"
    using render_message_fragments [of ?txt 1 0 "[Div 0 0 (Some (OutputRow True True ''Hello World''))]"] v
    by blast
  note mix = render_message_fragments [of ?mix 3 2 "[Div 2 0 (Some (Img 2 ''x'')), Div 2 1 None]",
      THEN conjunct2, THEN conjunct2, THEN conjunct1, rule_format, OF m, THEN conjunct2]
  note bad = render_message_fragments [of ?bad 3 2 divs TypeError,
      THEN conjunct2, THEN conjunct2, THEN conjunct2, THEN conjunct1, rule_format, OF b]
  note plain = render_message_fragments [of ?txt 1 0 divs err "''x''" 5,
      THEN conjunct2, THEN conjunct2, THEN conjunct2, THEN conjunct2, THEN conjunct1,
      rule_format, OF u]
  show ?thesis
    by (intro conjI) (fact h [THEN conjunct1] h [THEN conjunct2] r1 i d r2 r3
        t [THEN conjunct1] t [THEN conjunct2, THEN conjunct1]
        t [THEN conjunct2, THEN conjunct2, THEN conjunct1]
        t [THEN conjunct2, THEN conjunct2, THEN conjunct2, THEN conjunct1]
        t [THEN conjunct2, THEN conjunct2, THEN conjunct2, THEN conjunct2]
        r4 v r5 m mix b bad u [THEN conjunct1] u [THEN conjunct2] plain)+
qed

end
